theory Spec2Isabelle
  imports Main "HOL-Library.Multiset"
begin

section \<open>Python text primitives used by app.py\<close>

text \<open>
  A Python \<open>str\<close> is modelled as a \<open>string\<close>, each \<open>char\<close> standing for the code point of
  the same number (0 to 255).  The character classes below are those of CPython 3 on that
  range.  The reports are the text that \<open>subprocess.run(..., text=True)\<close> hands over.
\<close>

definition isspace :: "char \<Rightarrow> bool" where
  \<comment> \<open>\<open>str.isspace\<close>: the characters removed by \<open>str.strip()\<close>\<close>
  "isspace c = (let n = (of_char c :: nat) in
      (9 \<le> n \<and> n \<le> 13) \<or> (28 \<le> n \<and> n \<le> 32) \<or> n = 133 \<or> n = 160)"

definition strip :: "string \<Rightarrow> string" where
  "strip s = rev (dropWhile isspace (rev (dropWhile isspace s)))"

definition is_linebreak :: "char \<Rightarrow> bool" where
  \<comment> \<open>the line boundaries of \<open>str.splitlines\<close>: LF, VT, FF, CR, FS, GS, RS, NEL\<close>
  "is_linebreak c = (let n = (of_char c :: nat) in
      (10 \<le> n \<and> n \<le> 13) \<or> (28 \<le> n \<and> n \<le> 30) \<or> n = 133)"

fun splitlines_from :: "string \<Rightarrow> string \<Rightarrow> string list" where
  \<comment> \<open>\<open>splitlines_from cur s\<close>: \<open>cur\<close> is the line read so far; CR LF ends one line;
      no empty line is reported after a final line break\<close>
  "splitlines_from cur [] = (if cur = [] then [] else [cur])"
| "splitlines_from cur [c] =
     (if is_linebreak c then [cur] else [cur @ [c]])"
| "splitlines_from cur (c # d # cs) =
     (if c = CHR 0x0D \<and> d = CHR 0x0A then cur # splitlines_from [] cs
      else if is_linebreak c then cur # splitlines_from [] (d # cs)
      else splitlines_from (cur @ [c]) (d # cs))"

definition splitlines :: "string \<Rightarrow> string list" where
  "splitlines s = splitlines_from [] s"

fun split_from :: "char \<Rightarrow> string \<Rightarrow> string \<Rightarrow> string list" where
  \<comment> \<open>\<open>split_from sep cur s\<close>: \<open>cur\<close> is the part read so far\<close>
  "split_from sep cur [] = [cur]"
| "split_from sep cur (c # cs) =
     (if c = sep then cur # split_from sep [] cs else split_from sep (cur @ [c]) cs)"

definition split_on :: "char \<Rightarrow> string \<Rightarrow> string list" where
  \<comment> \<open>\<open>s.split(sep)\<close> for a separator of one character: every occurrence splits\<close>
  "split_on sep s = split_from sep [] s"

definition lower_char :: "char \<Rightarrow> char" where
  "lower_char c = (let n = (of_char c :: nat) in
      if (65 \<le> n \<and> n \<le> 90) \<or> (192 \<le> n \<and> n \<le> 222 \<and> n \<noteq> 215)
      then char_of (n + 32) else c)"

definition lower :: "string \<Rightarrow> string" where
  "lower s = map lower_char s"

definition startswith :: "string \<Rightarrow> string \<Rightarrow> bool" where
  "startswith s pat = (take (length pat) s = pat)"

fun contains :: "string \<Rightarrow> string \<Rightarrow> bool" where
  \<comment> \<open>\<open>contains pat s\<close> is Python's \<open>pat in s\<close>\<close>
  "contains pat [] = (pat = [])"
| "contains pat (c # cs) = (startswith (c # cs) pat \<or> contains pat cs)"

fun join :: "string \<Rightarrow> string list \<Rightarrow> string" where
  \<comment> \<open>\<open>sep.join(xs)\<close>\<close>
  "join sep [] = []"
| "join sep [x] = x"
| "join sep (x # y # ys) = x @ sep @ join sep (y # ys)"

subsection \<open>The built-in \<open>int\<close> on a string\<close>

definition int_space :: "char \<Rightarrow> bool" where
  \<comment> \<open>the white space \<open>int()\<close> skips at both ends: TAB to CR, space, NEL, NBSP
      (the separators FS to US are not skipped)\<close>
  "int_space c = (let n = (of_char c :: nat) in
      (9 \<le> n \<and> n \<le> 13) \<or> n = 32 \<or> n = 133 \<or> n = 160)"

definition is_digit :: "char \<Rightarrow> bool" where
  "is_digit c = (let n = (of_char c :: nat) in 48 \<le> n \<and> n \<le> 57)"

fun valid_digits :: "string \<Rightarrow> bool" where
  \<comment> \<open>one or more digits, single underscores allowed between two digits\<close>
  "valid_digits [] = False"
| "valid_digits [c] = is_digit c"
| "valid_digits (c # d # cs) =
     (is_digit c \<and> (if d = CHR ''_'' then valid_digits cs else valid_digits (d # cs)))"

definition digits_value :: "string \<Rightarrow> int" where
  "digits_value s = foldl (\<lambda>acc c. 10 * acc + (of_char c - 48)) 0 (filter is_digit s)"

definition max_str_digits :: nat where
  \<comment> \<open>\<open>sys.int_info.default_max_str_digits\<close>, enforced since CPython 3.11\<close>
  "max_str_digits = 4300"

definition py_int :: "string \<Rightarrow> int option" where
  \<comment> \<open>\<open>int(s)\<close>; \<open>None\<close> stands for the \<open>ValueError\<close> it raises\<close>
  "py_int s =
     (let t = rev (dropWhile int_space (rev (dropWhile int_space s)));
          neg = (t \<noteq> [] \<and> hd t = CHR ''-'');
          body = (if t \<noteq> [] \<and> (hd t = CHR ''-'' \<or> hd t = CHR ''+'') then tl t else t)
      in if valid_digits body \<and> length (filter is_digit body) \<le> max_str_digits
         then Some (if neg then - digits_value body else digits_value body)
         else None)"


section \<open>Errors raised by the script\<close>

datatype py_error =
    ValueError string
      \<comment> \<open>\<open>int()\<close> could not read the given text\<close>
  | KeyError string
      \<comment> \<open>a frame was asked for a column it does not have\<close>
  | CalledProcessError int "string list" "string option" "string option"
      \<comment> \<open>return code, command, captured output, captured stderr\<close>
  | FileNotFoundError string
      \<comment> \<open>the executable is not installed\<close>
  | AttributeError string
      \<comment> \<open>a method looked up on \<open>None\<close>\<close>
  | ZeroDivisionError
      \<comment> \<open>Python's division of an integer by zero\<close>
  | OverflowError
      \<comment> \<open>Python's division of two integers, quotient too large for a double\<close>
  | TypeError string
      \<comment> \<open>a frame method refused the dtype of a column\<close>

fun error_class :: "py_error \<Rightarrow> string" where
  \<comment> \<open>\<open>type(e).__name__\<close>\<close>
  "error_class (ValueError _) = ''ValueError''"
| "error_class (KeyError _) = ''KeyError''"
| "error_class (CalledProcessError _ _ _ _) = ''CalledProcessError''"
| "error_class (FileNotFoundError _) = ''FileNotFoundError''"
| "error_class (AttributeError _) = ''AttributeError''"
| "error_class ZeroDivisionError = ''ZeroDivisionError''"
| "error_class OverflowError = ''OverflowError''"
| "error_class (TypeError _) = ''TypeError''"

section \<open>External Stats Runner (lines 16 to 30)\<close>

text \<open>
  What the child process did: its exit status and what it wrote to its two output streams.
  The operating system is a function from the command line to that outcome; \<open>None\<close> when the
  executable cannot be started.
\<close>

record proc =
  exit_status :: int
  wrote_stdout :: string
  wrote_stderr :: string

record CompletedProcess =
  args :: "string list"
  returncode :: int
  stdout :: "string option"
  stderr :: "string option"

fun universal_newlines :: "string \<Rightarrow> string" where
  \<comment> \<open>what \<open>text=True\<close> does to a captured stream: CR LF and a lone CR become LF\<close>
  "universal_newlines [] = []"
| "universal_newlines [c] = (if c = CHR 0x0D then [CHR 0x0A] else [c])"
| "universal_newlines (c # d # cs) =
     (if c = CHR 0x0D \<and> d = CHR 0x0A then CHR 0x0A # universal_newlines cs
      else if c = CHR 0x0D then CHR 0x0A # universal_newlines (d # cs)
      else c # universal_newlines (d # cs))"

definition subprocess_run ::
  "(string list \<Rightarrow> proc option) \<Rightarrow> string list \<Rightarrow> bool \<Rightarrow> bool \<Rightarrow> py_error + CompletedProcess" where
  \<comment> \<open>\<open>subprocess.run(cmd, capture_output=.., text=True, check=..)\<close>: the streams are kept only
      when captured, as text; a non-zero exit status raises only when \<open>check\<close> is set\<close>
  "subprocess_run os cmd capture_output check =
     (case os cmd of
        None \<Rightarrow> Inl (FileNotFoundError (hd cmd))
      | Some p \<Rightarrow>
          (let out = (if capture_output then Some (universal_newlines (wrote_stdout p)) else None);
               err = (if capture_output then Some (universal_newlines (wrote_stderr p)) else None)
           in if check \<and> exit_status p \<noteq> 0
              then Inl (CalledProcessError (exit_status p) cmd out err)
              else Inr \<lparr>args = cmd, returncode = exit_status p, stdout = out, stderr = err\<rparr>))"

definition path_join :: "string \<Rightarrow> string \<Rightarrow> string" where
  \<comment> \<open>\<open>os.path.join\<close> on POSIX, two components\<close>
  "path_join a b =
     (if startswith b ''/'' then b
      else if a = [] \<or> last a = CHR ''/'' then a @ b
      else a @ ''/'' @ b)"

section \<open>Statistics tab (lines 35 to 54)\<close>

fun metrics_loop :: "string list \<Rightarrow> string list \<Rightarrow> string list" where
  "metrics_loop [] metrics = metrics"
| "metrics_loop (line # ls) metrics =
     (if strip line \<noteq> [] then
        (let parts = split_on (CHR ''+'') line in
         if length parts = 2 then
           (let cnt = strip (parts ! 0);
                desc = strip (hd (split_on (CHR ''('') (parts ! 1)))
            in metrics_loop ls (metrics @ [''**'' @ desc @ ''**: `'' @ cnt @ ''`'']))
         else metrics_loop ls metrics)
      else metrics_loop ls metrics)"

record statistics_view =
  col1 :: string
  col2 :: string
  raw_flagstats :: string

definition statistics_tab :: "string \<Rightarrow> statistics_view" where
  "statistics_tab flagstat_text =
     (let metrics = metrics_loop (splitlines flagstat_text) [];
          half = length metrics div 2
      in \<lparr>col1 = join ''\<newline>\<newline>'' (take half metrics),
          col2 = join ''\<newline>\<newline>'' (drop half metrics),
          raw_flagstats = flagstat_text\<rparr>)"

section \<open>Reference Table Parser and Chromosomes tab (lines 57 to 81)\<close>

record chr_rec =
  Chromosome :: string
  Length :: int
  Mapped :: int
  Unmapped :: int

fun chr_loop :: "string list \<Rightarrow> chr_rec list \<Rightarrow> py_error + chr_rec list" where
  "chr_loop [] chr_data = Inr chr_data"
| "chr_loop (line # ls) chr_data =
     (if strip line \<noteq> [] then
        (let parts = split_on (CHR 0x09) line in
         if length parts \<ge> 3 then
           (case py_int (parts ! 1) of
              None \<Rightarrow> Inl (ValueError (parts ! 1))
            | Some len \<Rightarrow>
           (case py_int (parts ! 2) of
              None \<Rightarrow> Inl (ValueError (parts ! 2))
            | Some mapped \<Rightarrow>
           (case (if length parts > 3 then py_int (parts ! 3) else Some 0) of
              None \<Rightarrow> Inl (ValueError (parts ! 3))
            | Some unmapped \<Rightarrow>
                chr_loop ls (chr_data @
                  [\<lparr>Chromosome = parts ! 0, Length = len, Mapped = mapped, Unmapped = unmapped\<rparr>]))))
         else chr_loop ls chr_data)
      else chr_loop ls chr_data)"

definition kept_line :: "string \<Rightarrow> bool" where
  \<comment> \<open>the two guards a line of the per-reference report passes to give a record\<close>
  "kept_line line = (strip line \<noteq> [] \<and> 3 \<le> length (split_on (CHR 0x09) line))"

text \<open>
  The frame.  \<open>pd.DataFrame(chr_data)\<close> takes its columns from the keys of the dicts, so the
  frame of an empty list has no column, and \<open>df[col]\<close> on a missing column raises
  \<open>KeyError\<close>.  pandas gives each integer column a dtype: \<open>int64\<close> when every value lies
  in the signed 64-bit range, \<open>uint64\<close> when every value lies between 0 and \<open>2^64 - 1\<close>
  and one of them is too large for \<open>int64\<close>, and \<open>object\<close> otherwise; an \<open>object\<close>
  column holds the Python integers themselves.
\<close>

definition int64 :: "int \<Rightarrow> bool" where
  "int64 i = (- (2 ^ 63) \<le> i \<and> i < 2 ^ 63)"


datatype dtype = Int64 | UInt64 | Object

definition infer_dtype :: "int list \<Rightarrow> dtype" where
  "infer_dtype vs =
     (if list_all int64 vs then Int64
      else if list_all (\<lambda>v. 0 \<le> v \<and> v < 2 ^ 64) vs then UInt64
      else Object)"

definition DataFrame_columns :: "chr_rec list \<Rightarrow> string list" where
  "DataFrame_columns chr_data =
     (if chr_data = [] then [] else [''Chromosome'', ''Length'', ''Mapped'', ''Unmapped''])"

definition getitem :: "chr_rec list \<Rightarrow> string \<Rightarrow> (chr_rec \<Rightarrow> int) \<Rightarrow> py_error + int list" where
  \<comment> \<open>\<open>df[col]\<close>, the column read through its field\<close>
  "getitem df col field =
     (if col \<in> set (DataFrame_columns df) then Inr (map field df) else Inl (KeyError col))"

text \<open>
  The quotient of two columns is a column of doubles.  \<open>Ratio m l\<close> names the double that
  NumPy computes for \<open>m / l\<close> on two numeric columns, and \<open>PyRatio m l\<close> the double that
  Python computes for \<open>m / l\<close> on two of its integers, both with \<open>l \<noteq> 0\<close>; their
  rounding is not modelled.  On numeric columns a zero divisor raises nothing: the
  quotient is an infinity, or NaN for \<open>0 / 0\<close>.  When one of the two columns has dtype
  \<open>object\<close>, NumPy divides the Python integers pair by pair, in row order, and Python's
  division raises \<open>ZeroDivisionError\<close> on a zero divisor and \<open>OverflowError\<close> on a quotient
  too large for a double.
\<close>

datatype float64 = Ratio int int | PyRatio int int | PosInf | NegInf | NaN

definition truediv :: "int \<Rightarrow> int \<Rightarrow> float64" where
  "truediv m l =
     (if l \<noteq> 0 then Ratio m l
      else if 0 < m then PosInf
      else if m < 0 then NegInf
      else NaN)"

definition py_truediv :: "int \<Rightarrow> int \<Rightarrow> py_error + float64" where
  \<comment> \<open>\<open>m / l\<close> on Python integers; the largest double is \<open>2^1024 - 2^971\<close>, and a quotient
      from \<open>2^1024 - 2^970\<close> on would round beyond it\<close>
  "py_truediv m l =
     (if l = 0 then Inl ZeroDivisionError
      else if (2 ^ 1024 - 2 ^ 970) * \<bar>l\<bar> \<le> \<bar>m\<bar> then Inl OverflowError
      else Inr (PyRatio m l))"

fun truediv_objects :: "int list \<Rightarrow> int list \<Rightarrow> py_error + float64 list" where
  "truediv_objects (m # ms) (l # ls) =
     (case py_truediv m l of
        Inl e \<Rightarrow> Inl e
      | Inr q \<Rightarrow>
          (case truediv_objects ms ls of
             Inl e \<Rightarrow> Inl e
           | Inr qs \<Rightarrow> Inr (q # qs)))"
| "truediv_objects _ _ = Inr []"

definition series_truediv :: "int list \<Rightarrow> int list \<Rightarrow> py_error + float64 list" where
  \<comment> \<open>\<open>a / b\<close> on two columns of one frame\<close>
  "series_truediv ms ls =
     (if infer_dtype ms = Object \<or> infer_dtype ls = Object then truediv_objects ms ls
      else Inr (map2 truediv ms ls))"

record frame_row = chr_rec +
  Coverage :: float64

definition with_coverage :: "chr_rec \<Rightarrow> float64 \<Rightarrow> frame_row" where
  "with_coverage r c =
     \<lparr>Chromosome = Chromosome r, Length = Length r, Mapped = Mapped r, Unmapped = Unmapped r,
      Coverage = c\<rparr>"

definition add_coverage :: "chr_rec list \<Rightarrow> py_error + frame_row list" where
  \<comment> \<open>\<open>df['Coverage'] = df['Mapped'] / df['Length']\<close>\<close>
  "add_coverage df =
     (case getitem df ''Mapped'' Mapped of
        Inl e \<Rightarrow> Inl e
      | Inr ms \<Rightarrow>
     (case getitem df ''Length'' Length of
        Inl e \<Rightarrow> Inl e
      | Inr ls \<Rightarrow>
     (case series_truediv ms ls of
        Inl e \<Rightarrow> Inl e
      | Inr cov \<Rightarrow> Inr (map2 with_coverage df cov))))"

definition reference_table :: "string \<Rightarrow> py_error + frame_row list" where
  "reference_table chromosome_stats =
     (case chr_loop (splitlines chromosome_stats) [] of
        Inl e \<Rightarrow> Inl e
      | Inr chr_data \<Rightarrow> add_coverage chr_data)"

definition nlargest :: "nat \<Rightarrow> frame_row list \<Rightarrow> py_error + frame_row list" where
  \<comment> \<open>\<open>df.nlargest(n, 'Mapped')\<close>: pandas refuses a column of dtype \<open>object\<close> with
      \<open>TypeError\<close>; on a numeric column it sorts the negated column with a stable sort and
      keeps the first \<open>n\<close>\<close>
  "nlargest n df =
     (if infer_dtype (map Mapped df) = Object then Inl (TypeError ''nlargest'')
      else Inr (take n (sort_key (\<lambda>r. - Mapped r) df)))"

text \<open>
  \<open>df.sort_values('Mapped', ascending=False)\<close> reverses the column, asks NumPy for the
  indices that sort it ascending, and reverses the rows taken at those indices.  NumPy's
  default sort does not say which of two equal counts comes first, so its \<open>argsort\<close> is a
  parameter of the model, of which only NumPy's own promise is known: on every column it
  returns the indices of the column, each once, in an order that sorts it
  (\<open>argsort_ok\<close>).  The type \<open>np_argsort\<close> holds the functions that keep that promise;
  \<open>stable_argsort\<close> is one of them.
\<close>

definition argsort_ok :: "(int list \<Rightarrow> nat list) \<Rightarrow> int list \<Rightarrow> bool" where
  "argsort_ok f xs =
     (mset (f xs) = mset [0..<length xs] \<and> sorted (map (\<lambda>i. xs ! i) (f xs)))"

definition stable_argsort :: "int list \<Rightarrow> nat list" where
  "stable_argsort xs = map snd (sort_key fst (zip xs [0..<length xs]))"

typedef np_argsort = "{f :: int list \<Rightarrow> nat list. \<forall>xs. argsort_ok f xs}"
proof
  have "argsort_ok stable_argsort xs" for xs
  proof -
    let ?zs = "zip xs [0..<length xs]"
    have ind: "mset (stable_argsort xs) = mset [0..<length xs]"
    proof -
      have ms: "map snd ?zs = [0..<length xs]" by (rule map_snd_zip) simp
      have "mset (map snd (sort_key fst ?zs)) = mset (map snd ?zs)"
        by (simp only: mset_map mset_sort)
      also have "\<dots> = mset [0..<length xs]" by (simp only: ms)
      finally show ?thesis by (simp only: stable_argsort_def)
    qed
    have at: "xs ! snd p = fst p" if "p \<in> set (sort_key fst ?zs)" for p
    proof -
      from that have "(fst p, snd p) \<in> set ?zs" by simp
      then obtain n where "xs ! n = fst p" and "[0..<length xs] ! n = snd p"
        and "n < length xs"
        by (auto simp: in_set_zip)
      then show ?thesis by simp
    qed
    have "map (\<lambda>i. xs ! i) (stable_argsort xs) = map (\<lambda>p. xs ! snd p) (sort_key fst ?zs)"
      by (simp add: stable_argsort_def comp_def)
    also have "\<dots> = map fst (sort_key fst ?zs)"
      using at by (intro map_cong) auto
    finally have "sorted (map (\<lambda>i. xs ! i) (stable_argsort xs))"
      by (simp only: sorted_sort_key)
    with ind show ?thesis by (simp only: argsort_ok_def)
  qed
  then show "stable_argsort \<in> {f. \<forall>xs. argsort_ok f xs}" by blast
qed

definition sort_values_desc :: "np_argsort \<Rightarrow> frame_row list \<Rightarrow> frame_row list" where
  "sort_values_desc argsort df =
     (let reversed = rev df
      in rev (map (\<lambda>i. reversed ! i) (Rep_np_argsort argsort (map Mapped reversed))))"

record chromosomes_view =
  top_table :: "frame_row list"
  bar_chart :: "(string \<times> int) list"
  all_table :: "frame_row list"

definition chromosomes_tab :: "np_argsort \<Rightarrow> string \<Rightarrow> py_error + chromosomes_view" where
  "chromosomes_tab argsort chromosome_stats =
     (case reference_table chromosome_stats of
        Inl e \<Rightarrow> Inl e
      | Inr df \<Rightarrow>
     (case nlargest 5 df of
        Inl e \<Rightarrow> Inl e
      | Inr top_df \<Rightarrow>
          Inr \<lparr>top_table = top_df,
               bar_chart = map (\<lambda>r. (Chromosome r, Mapped r)) top_df,
               all_table = sort_values_desc argsort df\<rparr>))"


section \<open>Flagstat Parser and composition chart (lines 90 to 131)\<close>

fun dict_set :: "('k \<times> 'v) list \<Rightarrow> 'k \<Rightarrow> 'v \<Rightarrow> ('k \<times> 'v) list" where
  \<comment> \<open>\<open>d[k] = v\<close> on a dict, kept in insertion order: a key already present keeps its place\<close>
  "dict_set [] k v = [(k, v)]"
| "dict_set ((k', v') # kvs) k v =
     (if k' = k then (k', v) # kvs else (k', v') # dict_set kvs k v)"

fun flagstat_loop :: "string list \<Rightarrow> (string \<times> int) list \<Rightarrow> py_error + (string \<times> int) list" where
  "flagstat_loop [] flagstat_data = Inr flagstat_data"
| "flagstat_loop (line # ls) flagstat_data =
     (if strip line \<noteq> [] then
        (let parts = split_on (CHR ''+'') line in
         if length parts = 2 then
           (case py_int (strip (parts ! 0)) of
              None \<Rightarrow> Inl (ValueError (strip (parts ! 0)))
            | Some cnt \<Rightarrow>
                (let desc = lower (strip (hd (split_on (CHR ''('') (parts ! 1))))
                 in flagstat_loop ls (dict_set flagstat_data desc cnt)))
         else flagstat_loop ls flagstat_data)
      else flagstat_loop ls flagstat_data)"

definition parse_flagstat :: "string \<Rightarrow> py_error + (string \<times> int) list" where
  "parse_flagstat flagstat_text = flagstat_loop (splitlines flagstat_text) []"

text \<open>
  The category names of \<open>labels_map\<close>, in the order of the table: 'Total Reads',
  'Secondary Alignments', 'Supplementary Alignments', 'Duplicates', 'Mapped Reads',
  'Paired Reads', 'Read 1', 'Read 2', 'Properly Paired', 'Both Mates Mapped', 'Singletons',
  'Mate Different Chr', 'Mate Diff Chr (MQ\<ge>5)'.  The script only copies them into the
  chart, so each is a constructor here.
\<close>

datatype category =
    Total_Reads | Secondary_Alignments | Supplementary_Alignments | Duplicates
  | Mapped_Reads | Paired_Reads | Read_1 | Read_2 | Properly_Paired | Both_Mates_Mapped
  | Singletons | Mate_Different_Chr | Mate_Diff_Chr_MQ5

definition labels_map :: "(string \<times> category) list" where
  "labels_map =
     [(''in total'', Total_Reads),
      (''secondary'', Secondary_Alignments),
      (''supplementary'', Supplementary_Alignments),
      (''duplicates'', Duplicates),
      (''mapped'', Mapped_Reads),
      (''paired in sequencing'', Paired_Reads),
      (''read1'', Read_1),
      (''read2'', Read_2),
      (''properly paired'', Properly_Paired),
      (''with itself and mate mapped'', Both_Mates_Mapped),
      (''singletons'', Singletons),
      (''with mate mapped to a different chr'', Mate_Different_Chr),
      (''with mate mapped to a different chr (mapq>=5)'', Mate_Diff_Chr_MQ5)]"

fun first_match :: "string \<Rightarrow> (string \<times> category) list \<Rightarrow> category option" where
  \<comment> \<open>the inner loop: the first pattern that occurs in \<open>k\<close> gives the label, then \<open>break\<close>\<close>
  "first_match k [] = None"
| "first_match k ((pat, label) # rest) =
     (if contains pat k then Some label else first_match k rest)"

fun pie_loop :: "(string \<times> int) list \<Rightarrow> (category \<times> int) list \<Rightarrow> (category \<times> int) list" where
  "pie_loop [] pie_data = pie_data"
| "pie_loop ((k, v) # items) pie_data =
     (case first_match k labels_map of
        Some label \<Rightarrow> pie_loop items (pie_data @ [(label, v)])
      | None \<Rightarrow> pie_loop items pie_data)"

text \<open>
  The two variables of the subtab.  The category mapper (lines 116 to 121) sets
  \<open>pie_data\<close> to the empty list and fills it from \<open>flagstat_data\<close>, which it only reads.
\<close>

record subtab1_vars =
  flagstat_data :: "(string \<times> int) list"
  pie_data :: "(category \<times> int) list"

definition category_mapper :: "subtab1_vars \<Rightarrow> subtab1_vars" where
  "category_mapper vars = vars\<lparr>pie_data := pie_loop (flagstat_data vars) []\<rparr>"

datatype pie_view = PieChart "(category \<times> int) list" | Warning string

definition flagstat_pie :: "string \<Rightarrow> py_error + pie_view" where
  "flagstat_pie flagstat_text =
     (case parse_flagstat flagstat_text of
        Inl e \<Rightarrow> Inl e
      | Inr d \<Rightarrow>
          (let vars = category_mapper \<lparr>flagstat_data = d, pie_data = []\<rparr>
           in if pie_data vars \<noteq> [] then Inr (PieChart (pie_data vars))
              else Inr (Warning ''Could not generate pie chart.'')))"

section \<open>The script\<close>

text \<open>
  One run of the script: the upload (its file name, or \<open>None\<close> when nothing is uploaded),
  the temporary directory, the operating system and NumPy's \<open>argsort\<close> are its inputs.  An exception ends the
  run, so the outcome is the error or the page.  The four charts drawn from random numbers
  (lines 133 to 171) read neither report and are left out of the page.
\<close>

datatype page =
    Upload_Prompt
  | Report statistics_view chromosomes_view pie_view

definition captured_text :: "CompletedProcess \<Rightarrow> py_error + string" where
  \<comment> \<open>\<open>result.stdout\<close> as the text the parsers call \<open>splitlines\<close> on\<close>
  "captured_text r =
     (case stdout r of
        Some t \<Rightarrow> Inr t
      | None \<Rightarrow> Inl (AttributeError ''splitlines''))"

definition app ::
  "string \<Rightarrow> (string list \<Rightarrow> proc option) \<Rightarrow> np_argsort \<Rightarrow> string option
     \<Rightarrow> py_error + page" where
  "app tmpdir os argsort uploaded_file =
     (case uploaded_file of
        None \<Rightarrow> Inr Upload_Prompt
      | Some name \<Rightarrow>
     (let bam_path = path_join tmpdir name in
      case subprocess_run os [''samtools'', ''index'', bam_path] False True of
        Inl e \<Rightarrow> Inl e
      | Inr _ \<Rightarrow>
     (case subprocess_run os [''samtools'', ''flagstat'', bam_path] True False of
        Inl e \<Rightarrow> Inl e
      | Inr flagstat_result \<Rightarrow>
     (case subprocess_run os [''samtools'', ''idxstats'', bam_path] True False of
        Inl e \<Rightarrow> Inl e
      | Inr idxstats_result \<Rightarrow>
     (case captured_text flagstat_result of
        Inl e \<Rightarrow> Inl e
      | Inr flagstat_text \<Rightarrow>
     (let tab1 = statistics_tab flagstat_text in
      case captured_text idxstats_result of
        Inl e \<Rightarrow> Inl e
      | Inr chromosome_stats \<Rightarrow>
     (case chromosomes_tab argsort chromosome_stats of
        Inl e \<Rightarrow> Inl e
      | Inr tab2 \<Rightarrow>
     (case flagstat_pie flagstat_text of
        Inl e \<Rightarrow> Inl e
      | Inr subtab1 \<Rightarrow> Inr (Report tab1 tab2 subtab1)))))))))"

section \<open>Facts about the text primitives\<close>

lemmas text_eval = isspace_def strip_def is_linebreak_def splitlines_def split_on_def lower_def
  lower_char_def startswith_def int_space_def is_digit_def digits_value_def max_str_digits_def
  py_int_def Let_def

lemmas frame_eval = reference_table_def add_coverage_def getitem_def DataFrame_columns_def
  series_truediv_def infer_dtype_def int64_def with_coverage_def truediv_def

lemma hd_split_from: "hd (split_from sep cur s) = cur @ takeWhile (\<lambda>c. c \<noteq> sep) s"
  by (induction s arbitrary: cur) auto

lemma hd_split_on: "hd (split_on sep s) = takeWhile (\<lambda>c. c \<noteq> sep) s"
  by (simp add: split_on_def hd_split_from)

lemma set_strip: "set (strip s) \<subseteq> set s"
proof -
  have "set (strip s) = set (dropWhile isspace (rev (dropWhile isspace s)))"
    by (simp add: strip_def)
  also have "\<dots> \<subseteq> set (rev (dropWhile isspace s))" by (auto dest: set_dropWhileD)
  also have "\<dots> \<subseteq> set s" by (auto dest: set_dropWhileD)
  finally show ?thesis .
qed

section \<open>Flagstat Parser: the entry of a summary line\<close>

text \<open>
  C1: every summary line \<open>"<n> + <m> <desc> (extra)"\<close> should yield the entry
  \<open>desc \<rightarrow> n\<close>, and \<open>"1000 + 0 in total (QC-passed reads + QC-failed reads)"\<close> the entry
  \<open>{"in total": 1000}\<close>.  Line 94 splits a line at every \<open>+\<close> and line 95 keeps it only
  when two parts come out, so this line, whose annotation holds a second \<open>+\<close>, gives no
  entry and the chart of a report made of it alone is replaced by the warning.  The same
  line without its annotation is read and charted as 'Total Reads', the category that
  \<open>labels_map\<close> holds for it; even then the key is \<open>0 in total\<close>, the text between the
  \<open>+\<close> and the first \<open>(\<close>, second integer included.
\<close>

theorem flagstat_total_line_dropped:
  "parse_flagstat ''1000 + 0 in total (QC-passed reads + QC-failed reads)'' = Inr []
   \<and> flagstat_pie ''1000 + 0 in total (QC-passed reads + QC-failed reads)''
       = Inr (Warning ''Could not generate pie chart.'')
   \<and> parse_flagstat ''1000 + 0 in total'' = Inr [(''0 in total'', 1000)]
   \<and> flagstat_pie ''1000 + 0 in total'' = Inr (PieChart [(Total_Reads, 1000)])"
  by (simp add: flagstat_pie_def parse_flagstat_def category_mapper_def labels_map_def
      text_eval)

section \<open>Empty reports\<close>

text \<open>
  C7: the empty summary report gives the empty mapping and raises nothing; the Statistics
  tab shows two empty columns and the composition subtab shows its warning in place of the
  chart.
\<close>

theorem empty_summary_report:
  "parse_flagstat '''' = Inr []
   \<and> statistics_tab '''' = \<lparr>col1 = '''', col2 = '''', raw_flagstats = ''''\<rparr>
   \<and> flagstat_pie '''' = Inr (Warning ''Could not generate pie chart.'')"
  by (simp add: parse_flagstat_def statistics_tab_def flagstat_pie_def category_mapper_def
      text_eval)

text \<open>
  C3: an empty reference table should leave the Chromosomes tab in an empty state.  The
  script builds the frame from the empty list, so the frame has no \<open>Mapped\<close> column and the
  coverage line raises \<open>KeyError\<close>; the run ends there.  The same happens when every line of
  the report has fewer than three fields.
\<close>

theorem chromosomes_tab_empty_report:
  "chromosomes_tab argsort '''' = Inl (KeyError ''Mapped'')
   \<and> chromosomes_tab argsort (''chrM'' @ [CHR 0x09] @ ''16569'') = Inl (KeyError ''Mapped'')
   \<and> app ''/tmp/tmpk3'' (\<lambda>cmd. Some \<lparr>exit_status = 0,
          wrote_stdout = (if cmd ! 1 = ''flagstat'' then ''10 + 0 mapped'' else ''''),
          wrote_stderr = ''''\<rparr>) argsort (Some ''a.bam'') = Inl (KeyError ''Mapped'')"
  by (simp add: app_def subprocess_run_def path_join_def captured_text_def chromosomes_tab_def
      reference_table_def add_coverage_def getitem_def DataFrame_columns_def text_eval)

section \<open>External Stats Runner: a failed index build\<close>

text \<open>
  C6 (as stated): when the index build fails, the run fails with an error that carries the
  tool's diagnostic output.  The index call sets \<open>check\<close> but captures nothing, so the
  \<open>CalledProcessError\<close> it raises holds the exit status and the command, and neither of the
  tool's output streams.
\<close>

theorem index_failure_counterexample:
  "app ''/tmp/tmpk3''
       (\<lambda>cmd. Some \<lparr>exit_status = 1, wrote_stdout = '''',
                     wrote_stderr = ''[E::hts_idx_push] Unsorted positions''\<rparr>)
       (Abs_np_argsort stable_argsort) (Some ''a.bam'')
     = Inl (CalledProcessError 1 [''samtools'', ''index'', ''/tmp/tmpk3/a.bam''] None None)
   \<and> app ''/tmp/tmpk3''
       (\<lambda>cmd. Some \<lparr>exit_status = 1, wrote_stdout = '''',
                     wrote_stderr = ''[E::hts_idx_push] Unsorted positions''\<rparr>)
       (Abs_np_argsort stable_argsort) (Some ''a.bam'')
     \<noteq> Inl (CalledProcessError 1 [''samtools'', ''index'', ''/tmp/tmpk3/a.bam''] None
              (Some ''[E::hts_idx_push] Unsorted positions''))"
  by (simp add: app_def subprocess_run_def path_join_def startswith_def)

text \<open>
  C6 (amended): when the index build exits with a non-zero status, the run ends with the
  \<open>CalledProcessError\<close> of that status and command, with no captured output, and no report
  is produced: neither of the two report commands is consulted.
\<close>

theorem index_failure_aborts:
  assumes "os [''samtools'', ''index'', path_join tmpdir name] = Some p"
    and "exit_status p \<noteq> 0"
  shows "app tmpdir os argsort (Some name) =
           Inl (CalledProcessError (exit_status p)
                  [''samtools'', ''index'', path_join tmpdir name] None None)"
  using assms by (simp add: app_def subprocess_run_def)

theorem index_failure_aborts_witness:
  "app ''/tmp/tmpk3''
       (\<lambda>cmd. Some \<lparr>exit_status = 1, wrote_stdout = '''',
                     wrote_stderr = ''[E::hts_idx_push] Unsorted positions''\<rparr>)
       (Abs_np_argsort stable_argsort) (Some ''reads.bam'')
     = Inl (CalledProcessError 1 [''samtools'', ''index'', ''/tmp/tmpk3/reads.bam''] None None)"
  using index_failure_aborts [of
      "\<lambda>cmd. Some \<lparr>exit_status = 1, wrote_stdout = '''',
                     wrote_stderr = ''[E::hts_idx_push] Unsorted positions''\<rparr>"
      "''/tmp/tmpk3''" "''reads.bam''"
      "\<lparr>exit_status = 1, wrote_stdout = '''',
                     wrote_stderr = ''[E::hts_idx_push] Unsorted positions''\<rparr>"]
  by (simp add: path_join_def startswith_def)

section \<open>Composition categories\<close>

text \<open>
  C9: the category mapper is idempotent and deterministic.  Run on its own outcome it
  changes nothing, because it starts \<open>pie_data\<close> afresh and leaves \<open>flagstat_data\<close> as it
  was; and the grouping it computes does not depend on what \<open>pie_data\<close> held before, so two
  runs on the same summary give the same grouping.
\<close>

theorem category_mapper_idempotent:
  "category_mapper (category_mapper vars) = category_mapper vars
   \<and> flagstat_data (category_mapper vars) = flagstat_data vars
   \<and> pie_data (category_mapper (vars\<lparr>pie_data := previous\<rparr>)) = pie_data (category_mapper vars)"
  by (simp add: category_mapper_def)

theorem category_mapper_idempotent_witness:
  "category_mapper (category_mapper
      \<lparr>flagstat_data = [(''0 mapped'', 900), (''0 singletons'', 50), (''0 other'', 1)],
       pie_data = []\<rparr>)
     = \<lparr>flagstat_data = [(''0 mapped'', 900), (''0 singletons'', 50), (''0 other'', 1)],
        pie_data = [(Mapped_Reads, 900), (Singletons, 50)]\<rparr>"
  using category_mapper_idempotent [of
      "\<lparr>flagstat_data = [(''0 mapped'', 900), (''0 singletons'', 50), (''0 other'', 1)],
        pie_data = []\<rparr>"]
  by (simp add: category_mapper_def labels_map_def startswith_def)

section \<open>Composition chart: the categories that are never shown\<close>

lemma startswith_iff: "startswith s pat = (\<exists>ss. s = pat @ ss)"
proof
  assume "startswith s pat"
  then have "s = pat @ drop (length pat) s"
    by (metis append_take_drop_id startswith_def)
  then show "\<exists>ss. s = pat @ ss" ..
next
  assume "\<exists>ss. s = pat @ ss"
  then show "startswith s pat" by (auto simp: startswith_def)
qed

lemma contains_iff: "contains pat s = (\<exists>ps ss. s = ps @ pat @ ss)"
proof (induction s)
  case Nil
  then show ?case by auto
next
  case (Cons c cs)
  show ?case
  proof
    assume "contains pat (c # cs)"
    then consider "startswith (c # cs) pat" | "contains pat cs" by auto
    then show "\<exists>ps ss. c # cs = ps @ pat @ ss"
    proof cases
      case 1
      then obtain ss where "c # cs = pat @ ss" by (auto simp: startswith_iff)
      then have "c # cs = [] @ pat @ ss" by simp
      then show ?thesis by blast
    next
      case 2
      then obtain ps ss where "cs = ps @ pat @ ss" using Cons.IH by auto
      then have "c # cs = (c # ps) @ pat @ ss" by simp
      then show ?thesis by blast
    qed
  next
    assume "\<exists>ps ss. c # cs = ps @ pat @ ss"
    then obtain ps ss where eq: "c # cs = ps @ pat @ ss" by blast
    show "contains pat (c # cs)"
    proof (cases ps)
      case Nil
      then have "startswith (c # cs) pat" using eq by (auto simp: startswith_iff)
      then show ?thesis by simp
    next
      case (Cons p ps')
      then have "cs = ps' @ pat @ ss" using eq by simp
      then have "contains pat cs" using Cons.IH by blast
      then show ?thesis by simp
    qed
  qed
qed

lemma contains_trans: "contains a b \<Longrightarrow> contains b k \<Longrightarrow> contains a k"
proof -
  assume "contains a b" and "contains b k"
  then obtain p1 s1 p2 s2 where "b = p1 @ a @ s1" and "k = p2 @ b @ s2"
    by (auto simp: contains_iff)
  then have "k = (p2 @ p1) @ a @ (s1 @ s2)" by simp
  then show ?thesis unfolding contains_iff by blast
qed

lemma mapped_in_both_mates: "contains ''mapped'' ''with itself and mate mapped''"
  by (simp add: startswith_def)

lemma mapped_in_mate_diff: "contains ''mapped'' ''with mate mapped to a different chr''"
  by (simp add: startswith_def)

lemma mapped_in_mate_diff_mq:
  "contains ''mapped'' ''with mate mapped to a different chr (mapq>=5)''"
  by (simp add: startswith_def)

lemma first_match_labels:
  "first_match k labels_map \<notin>
     {Some Both_Mates_Mapped, Some Mate_Different_Chr, Some Mate_Diff_Chr_MQ5}"
proof -
  have a: "contains ''with itself and mate mapped'' k \<Longrightarrow> contains ''mapped'' k"
    using contains_trans [OF mapped_in_both_mates] .
  have b: "contains ''with mate mapped to a different chr'' k \<Longrightarrow> contains ''mapped'' k"
    using contains_trans [OF mapped_in_mate_diff] .
  have c: "contains ''with mate mapped to a different chr (mapq>=5)'' k \<Longrightarrow> contains ''mapped'' k"
    using contains_trans [OF mapped_in_mate_diff_mq] .
  show ?thesis
    using a b c by (auto simp: labels_map_def)
qed

lemma pie_loop_categories:
  "set (pie_loop items acc) \<subseteq> set acc \<union> {(c, v). \<exists>k. first_match k labels_map = Some c}"
proof (induction items acc rule: pie_loop.induct)
  case (1 pie_data)
  then show ?case by simp
next
  case (2 k v items pie_data)
  show ?case
  proof (cases "first_match k labels_map")
    case None
    then show ?thesis using 2 by auto
  next
    case (Some label)
    then show ?thesis using 2(2) [OF Some] by auto
  qed
qed

lemma lower_char_paren: "lower_char c = CHR ''('' \<Longrightarrow> c = CHR ''(''"
proof (rule ccontr)
  assume eq: "lower_char c = CHR ''(''" and ne: "c \<noteq> CHR ''(''"
  let ?n = "of_char c :: nat"
  have up: "(65 \<le> ?n \<and> ?n \<le> 90) \<or> (192 \<le> ?n \<and> ?n \<le> 222 \<and> ?n \<noteq> 215)"
    using eq ne by (auto simp: lower_char_def Let_def split: if_splits)
  then have "lower_char c = char_of (?n + 32)" by (simp add: lower_char_def Let_def)
  then have "(of_char (lower_char c) :: nat) = (?n + 32) mod 256"
    by (simp add: of_char_of)
  moreover have "(of_char (CHR ''('') :: nat) = 40" by simp
  ultimately have "(?n + 32) mod 256 = 40" using eq by simp
  with up show False by auto
qed

lemma paren_not_in_lower: "CHR ''('' \<notin> set s \<Longrightarrow> CHR ''('' \<notin> set (lower s)"
proof
  assume no: "CHR ''('' \<notin> set s" and "CHR ''('' \<in> set (lower s)"
  then obtain c where "c \<in> set s" and "lower_char c = CHR ''(''"
    by (auto simp: lower_def)
  then show False using no lower_char_paren by blast
qed

lemma paren_not_in_desc:
  "CHR ''('' \<notin> set (lower (strip (hd (split_on (CHR ''('') s))))"
proof -
  have "CHR ''('' \<notin> set (takeWhile (\<lambda>c. c \<noteq> CHR ''('') s)"
    by (auto dest: set_takeWhileD)
  then have "CHR ''('' \<notin> set (strip (hd (split_on (CHR ''('') s)))"
    using set_strip by (fastforce simp: hd_split_on)
  then show ?thesis by (rule paren_not_in_lower)
qed

lemma fst_dict_set: "fst ` set (dict_set d k v) = insert k (fst ` set d)"
  by (induction d k v rule: dict_set.induct) auto

lemma flagstat_loop_keys:
  "flagstat_loop ls d = Inr d' \<Longrightarrow> \<forall>k\<in>fst ` set d. CHR ''('' \<notin> set k \<Longrightarrow>
     \<forall>k\<in>fst ` set d'. CHR ''('' \<notin> set k"
proof (induction ls arbitrary: d)
  case Nil
  then show ?case by simp
next
  case (Cons line ls)
  show ?case
  proof (cases "strip line \<noteq> [] \<and> length (split_on (CHR ''+'') line) = 2")
    case False
    then have "flagstat_loop ls d = Inr d'"
      using Cons.prems(1) by (auto simp: Let_def split: if_splits)
    then show ?thesis using Cons.IH Cons.prems(2) by blast
  next
    case True
    then obtain n where n: "py_int (strip (split_on (CHR ''+'') line ! 0)) = Some n"
      using Cons.prems(1) by (auto simp: Let_def split: option.splits)
    let ?desc = "lower (strip (hd (split_on (CHR ''('') (split_on (CHR ''+'') line ! 1))))"
    have step: "flagstat_loop ls (dict_set d ?desc n) = Inr d'"
      using Cons.prems(1) True n by (simp add: Let_def)
    have keys: "\<forall>k\<in>fst ` set (dict_set d ?desc n). CHR ''('' \<notin> set k"
      unfolding fst_dict_set using Cons.prems(2) paren_not_in_desc by blast
    show ?thesis using Cons.IH [OF step keys] .
  qed
qed


lemma contains_set: "contains pat s \<Longrightarrow> set pat \<subseteq> set s"
  by (auto simp: contains_iff)

text \<open>
  C10: the composition chart never shows 'Both Mates Mapped', 'Mate Different Chr' or
  'Mate Diff Chr (MQ\<ge>5)'.  A key that holds one of their phrases also holds \<open>mapped\<close>,
  which stands earlier in the table and wins; and a key never holds \<open>(\<close>, so the phrase
  with \<open>(mapq>=5)\<close> occurs in none.
\<close>

theorem mate_categories_never_assigned:
  "first_match k labels_map \<notin>
      {Some Both_Mates_Mapped, Some Mate_Different_Chr, Some Mate_Diff_Chr_MQ5}
   \<and> (contains ''with itself and mate mapped'' k \<longrightarrow> contains ''mapped'' k)
   \<and> (contains ''with mate mapped to a different chr'' k \<longrightarrow> contains ''mapped'' k)
   \<and> (parse_flagstat flagstat_text = Inr d \<longrightarrow>
        (\<forall>key\<in>fst ` set d. CHR ''('' \<notin> set key
            \<and> \<not> contains ''with mate mapped to a different chr (mapq>=5)'' key))
   \<and> (flagstat_pie flagstat_text = Inr (PieChart chart) \<longrightarrow>
        (\<forall>c\<in>fst ` set chart.
            c \<notin> {Both_Mates_Mapped, Mate_Different_Chr, Mate_Diff_Chr_MQ5}))"
proof (intro conjI impI ballI)
  show "first_match k labels_map \<notin>
      {Some Both_Mates_Mapped, Some Mate_Different_Chr, Some Mate_Diff_Chr_MQ5}"
    by (rule first_match_labels)
next
  assume "contains ''with itself and mate mapped'' k"
  then show "contains ''mapped'' k" using contains_trans [OF mapped_in_both_mates] by blast
next
  assume "contains ''with mate mapped to a different chr'' k"
  then show "contains ''mapped'' k" using contains_trans [OF mapped_in_mate_diff] by blast
next
  fix key
  assume p: "parse_flagstat flagstat_text = Inr d" and key: "key \<in> fst ` set d"
  have "\<forall>k\<in>fst ` set d. CHR ''('' \<notin> set k"
    using p unfolding parse_flagstat_def by (rule flagstat_loop_keys) simp
  then show "CHR ''('' \<notin> set key" using key by blast
next
  fix key
  assume p: "parse_flagstat flagstat_text = Inr d" and key: "key \<in> fst ` set d"
  have "\<forall>k\<in>fst ` set d. CHR ''('' \<notin> set k"
    using p unfolding parse_flagstat_def by (rule flagstat_loop_keys) simp
  then have no: "CHR ''('' \<notin> set key" using key by blast
  show "\<not> contains ''with mate mapped to a different chr (mapq>=5)'' key"
  proof
    assume "contains ''with mate mapped to a different chr (mapq>=5)'' key"
    then have "set ''with mate mapped to a different chr (mapq>=5)'' \<subseteq> set key"
      by (rule contains_set)
    then have "CHR ''('' \<in> set key" by auto
    with no show False by contradiction
  qed
next
  fix c
  assume pie: "flagstat_pie flagstat_text = Inr (PieChart chart)" and c: "c \<in> fst ` set chart"
  from pie obtain d' where chart: "chart = pie_loop d' []"
    by (auto simp: flagstat_pie_def category_mapper_def Let_def
        split: sum.splits if_splits)
  from c obtain v where "(c, v) \<in> set chart" by auto
  then have "\<exists>k. first_match k labels_map = Some c"
    using pie_loop_categories [of d' "[]"] chart by auto
  then show "c \<notin> {Both_Mates_Mapped, Mate_Different_Chr, Mate_Diff_Chr_MQ5}"
    using first_match_labels by (metis insert_iff option.inject empty_iff)
qed

theorem mate_categories_never_assigned_witness:
  "first_match ''0 with itself and mate mapped'' labels_map = Some Mapped_Reads
   \<and> parse_flagstat ''850 + 0 with itself and mate mapped\<newline>5 + 0 with mate mapped to a different chr (mapQ>=5)''
       = Inr [(''0 with itself and mate mapped'', 850),
              (''0 with mate mapped to a different chr'', 5)]
   \<and> flagstat_pie ''850 + 0 with itself and mate mapped\<newline>5 + 0 with mate mapped to a different chr (mapQ>=5)''
       = Inr (PieChart [(Mapped_Reads, 850), (Mapped_Reads, 5)])
   \<and> Mapped_Reads \<notin> {Both_Mates_Mapped, Mate_Different_Chr, Mate_Diff_Chr_MQ5}"
proof -
  let ?t = "''850 + 0 with itself and mate mapped\<newline>5 + 0 with mate mapped to a different chr (mapQ>=5)''"
  have p: "parse_flagstat ?t = Inr [(''0 with itself and mate mapped'', 850),
              (''0 with mate mapped to a different chr'', 5)]"
    by (simp add: parse_flagstat_def text_eval)
  have f: "first_match ''0 with itself and mate mapped'' labels_map = Some Mapped_Reads"
    by (simp add: labels_map_def startswith_def)
  have pie: "flagstat_pie ?t = Inr (PieChart [(Mapped_Reads, 850), (Mapped_Reads, 5)])"
    by (simp add: flagstat_pie_def p category_mapper_def labels_map_def startswith_def)
  have "\<forall>c\<in>fst ` set [(Mapped_Reads, 850::int), (Mapped_Reads, 5)].
          c \<notin> {Both_Mates_Mapped, Mate_Different_Chr, Mate_Diff_Chr_MQ5}"
    using mate_categories_never_assigned [of "''0 with itself and mate mapped''" ?t
        "[(''0 with itself and mate mapped'', 850), (''0 with mate mapped to a different chr'', 5)]"
        "[(Mapped_Reads, 850), (Mapped_Reads, 5)]"] pie
    by blast
  then have "Mapped_Reads \<notin> {Both_Mates_Mapped, Mate_Different_Chr, Mate_Diff_Chr_MQ5}"
    by simp
  with p f pie show ?thesis by blast
qed

section \<open>Reference Table Parser: records, coverage and derived views\<close>




lemma truediv_objects_length:
  "truediv_objects ms ls = Inr qs \<Longrightarrow> length qs = min (length ms) (length ls)"
proof (induction ms ls arbitrary: qs rule: truediv_objects.induct)
  case (1 m ms l ls)
  from "1.prems" obtain q qs' where q: "py_truediv m l = Inr q"
    and rest: "truediv_objects ms ls = Inr qs'" and qs: "qs = q # qs'"
    by (auto split: sum.splits)
  from "1.IH" [OF q rest] show ?case using qs by simp
qed auto

lemma series_truediv_length:
  "series_truediv ms ls = Inr cov \<Longrightarrow> length cov = min (length ms) (length ls)"
  by (auto simp: series_truediv_def truediv_objects_length split: if_splits)

lemma map2_with_coverage_names:
  "length cov = length rows \<Longrightarrow> map Chromosome (map2 with_coverage rows cov) = map Chromosome rows"
  by (induction rows cov rule: list_induct2') (auto simp: with_coverage_def)

lemma add_coverage_names:
  assumes "add_coverage rows = Inr df"
  shows "map Chromosome df = map Chromosome rows"
proof -
  from assms obtain cov where cov: "series_truediv (map Mapped rows) (map Length rows) = Inr cov"
    and df: "df = map2 with_coverage rows cov"
    by (auto simp: add_coverage_def getitem_def split: if_splits sum.splits)
  from cov have "length cov = length rows" by (auto dest: series_truediv_length)
  then show ?thesis unfolding df by (rule map2_with_coverage_names)
qed

lemma chr_loop_skip:
  "length (split_on (CHR 0x09) line) < 3 \<Longrightarrow> chr_loop (line # ls) acc = chr_loop ls acc"
  by (simp add: Let_def)

lemma chr_loop_three:
  assumes "strip line \<noteq> []" and "split_on (CHR 0x09) line = [name, len_s, map_s]"
    and "py_int len_s = Some l" and "py_int map_s = Some m"
  shows "chr_loop (line # ls) acc =
           chr_loop ls (acc @ [\<lparr>Chromosome = name, Length = l, Mapped = m, Unmapped = 0\<rparr>])"
  using assms by (simp add: Let_def)

lemma chr_loop_names:
  "chr_loop ls acc = Inr rows \<Longrightarrow>
     map Chromosome rows =
       map Chromosome acc @ map (\<lambda>l. split_on (CHR 0x09) l ! 0) (filter kept_line ls)"
proof (induction ls arbitrary: acc)
  case Nil
  then show ?case by simp
next
  case (Cons line ls)
  show ?case
  proof (cases "kept_line line")
    case False
    then have "chr_loop ls acc = Inr rows"
      using Cons.prems by (auto simp: kept_line_def Let_def split: if_splits)
    then show ?thesis using Cons.IH False by simp
  next
    case True
    let ?parts = "split_on (CHR 0x09) line"
    from True Cons.prems obtain l m u where
      step: "chr_loop ls (acc @ [\<lparr>Chromosome = ?parts ! 0, Length = l, Mapped = m, Unmapped = u\<rparr>])
               = Inr rows"
      by (auto simp: kept_line_def Let_def split: option.splits if_splits)
    show ?thesis using Cons.IH [OF step] True by simp
  qed
qed

lemma reference_table_names:
  assumes "reference_table chromosome_stats = Inr df"
  shows "map Chromosome df =
           map (\<lambda>l. split_on (CHR 0x09) l ! 0) (filter kept_line (splitlines chromosome_stats))"
proof -
  from assms obtain rows where rows: "chr_loop (splitlines chromosome_stats) [] = Inr rows"
    and df: "add_coverage rows = Inr df"
    by (auto simp: reference_table_def split: sum.splits)
  from df have "map Chromosome df = map Chromosome rows" by (rule add_coverage_names)
  then show ?thesis using chr_loop_names [OF rows] by simp
qed

lemma chr1_line:
  "reference_table (''chr1'' @ [CHR 0x09] @ ''248956422'' @ [CHR 0x09] @ ''500000'' @ [CHR 0x09] @ ''1200'') =
     Inr [\<lparr>Chromosome = ''chr1'', Length = 248956422, Mapped = 500000, Unmapped = 1200,
           Coverage = Ratio 500000 248956422\<rparr>]"
  by (simp add: frame_eval text_eval)

lemma chrM_line:
  "reference_table (''chrM'' @ [CHR 0x09] @ ''16569'' @ [CHR 0x09] @ ''300'') =
     Inr [\<lparr>Chromosome = ''chrM'', Length = 16569, Mapped = 300, Unmapped = 0,
           Coverage = Ratio 300 16569\<rparr>]"
  by (simp add: frame_eval text_eval)

text \<open>
  C4: a line of the per-reference report with fewer than three tab-separated fields is
  skipped; a line with exactly three fields (not blank, both numbers read by \<open>int\<close>) gives
  a record with \<open>Unmapped = 0\<close>; the line \<open>chr1 248956422 500000 1200\<close> gives the record
  with these values and the coverage \<open>500000 / 248956422\<close>, and \<open>chrM 16569 300\<close> gives
  \<open>Unmapped = 0\<close>; the records stand in the order of the lines that gave them.
\<close>

theorem reference_lines:
  "(length (split_on (CHR 0x09) line) < 3 \<longrightarrow> chr_loop (line # ls) acc = chr_loop ls acc)
   \<and> (strip line \<noteq> [] \<and> split_on (CHR 0x09) line = [name, len_s, map_s]
        \<and> py_int len_s = Some l \<and> py_int map_s = Some m \<longrightarrow>
      chr_loop (line # ls) acc =
        chr_loop ls (acc @ [\<lparr>Chromosome = name, Length = l, Mapped = m, Unmapped = 0\<rparr>]))
   \<and> reference_table (''chr1'' @ [CHR 0x09] @ ''248956422'' @ [CHR 0x09] @ ''500000''
          @ [CHR 0x09] @ ''1200'') =
        Inr [\<lparr>Chromosome = ''chr1'', Length = 248956422, Mapped = 500000, Unmapped = 1200,
              Coverage = Ratio 500000 248956422\<rparr>]
   \<and> reference_table (''chrM'' @ [CHR 0x09] @ ''16569'' @ [CHR 0x09] @ ''300'') =
        Inr [\<lparr>Chromosome = ''chrM'', Length = 16569, Mapped = 300, Unmapped = 0,
              Coverage = Ratio 300 16569\<rparr>]
   \<and> (reference_table chromosome_stats = Inr df \<longrightarrow>
        map Chromosome df =
          map (\<lambda>l. split_on (CHR 0x09) l ! 0) (filter kept_line (splitlines chromosome_stats)))"
  using chr_loop_skip chr_loop_three chr1_line chrM_line reference_table_names
  by (intro conjI impI) blast+

theorem reference_lines_witness:
  "chr_loop [''short'' @ [CHR 0x09] @ ''1''] [] = Inr []
   \<and> chr_loop [''chrM'' @ [CHR 0x09] @ ''16569'' @ [CHR 0x09] @ ''300''] [] =
        Inr [\<lparr>Chromosome = ''chrM'', Length = 16569, Mapped = 300, Unmapped = 0\<rparr>]
   \<and> map (\<lambda>l. split_on (CHR 0x09) l ! 0)
        (filter kept_line (splitlines (''chr1'' @ [CHR 0x09] @ ''248956422'' @ [CHR 0x09]
            @ ''500000'' @ [CHR 0x09] @ ''1200\<newline>short'' @ [CHR 0x09] @ ''1\<newline>chrM''
            @ [CHR 0x09] @ ''16569'' @ [CHR 0x09] @ ''300''))) = [''chr1'', ''chrM'']"
proof -
  let ?short = "''short'' @ [CHR 0x09] @ ''1''"
  let ?chrM = "''chrM'' @ [CHR 0x09] @ ''16569'' @ [CHR 0x09] @ ''300''"
  let ?text = "''chr1'' @ [CHR 0x09] @ ''248956422'' @ [CHR 0x09]
            @ ''500000'' @ [CHR 0x09] @ ''1200\<newline>short'' @ [CHR 0x09] @ ''1\<newline>chrM''
            @ [CHR 0x09] @ ''16569'' @ [CHR 0x09] @ ''300''"
  let ?df = "[\<lparr>Chromosome = ''chr1'', Length = 248956422, Mapped = 500000, Unmapped = 1200,
               Coverage = Ratio 500000 248956422\<rparr>,
              \<lparr>Chromosome = ''chrM'', Length = 16569, Mapped = 300, Unmapped = 0,
               Coverage = Ratio 300 16569\<rparr>]"
  have two: "length (split_on (CHR 0x09) ?short) < 3" by (simp add: split_on_def)
  have a: "chr_loop [?short] [] = Inr []"
    using reference_lines [of ?short "[]" "[]"] two by simp
  have nb: "strip ?chrM \<noteq> []" by (simp add: text_eval)
  have parts: "split_on (CHR 0x09) ?chrM = [''chrM'', ''16569'', ''300'']"
    by (simp add: split_on_def)
  have l: "py_int ''16569'' = Some 16569" by (simp add: text_eval)
  have m: "py_int ''300'' = Some 300" by (simp add: text_eval)
  have b: "chr_loop [?chrM] [] =
        Inr [\<lparr>Chromosome = ''chrM'', Length = 16569, Mapped = 300, Unmapped = 0\<rparr>]"
    using reference_lines [of ?chrM "[]" "[]" "''chrM''" "''16569''" "''300''" 16569 300]
      nb parts l m by simp
  have tab: "reference_table ?text = Inr ?df"
    by (simp add: frame_eval text_eval)
  have "map Chromosome ?df =
          map (\<lambda>l. split_on (CHR 0x09) l ! 0) (filter kept_line (splitlines ?text))"
    using reference_lines [of _ _ _ _ _ _ _ _ ?text ?df] tab by blast
  then have c: "map (\<lambda>l. split_on (CHR 0x09) l ! 0) (filter kept_line (splitlines ?text))
                  = [''chr1'', ''chrM'']"
    by simp
  from a b c show ?thesis by simp
qed
















lemma six_references_views:
  "map_sum id (map Chromosome) (nlargest 5
     [\<lparr>Chromosome = ''a'', Length = 10, Mapped = 5, Unmapped = 0, Coverage = Ratio 5 10\<rparr>,
      \<lparr>Chromosome = ''b'', Length = 10, Mapped = 50, Unmapped = 0, Coverage = Ratio 50 10\<rparr>,
      \<lparr>Chromosome = ''c'', Length = 10, Mapped = 20, Unmapped = 0, Coverage = Ratio 20 10\<rparr>,
      \<lparr>Chromosome = ''d'', Length = 10, Mapped = 50, Unmapped = 0, Coverage = Ratio 50 10\<rparr>,
      \<lparr>Chromosome = ''e'', Length = 10, Mapped = 1, Unmapped = 0, Coverage = Ratio 1 10\<rparr>,
      \<lparr>Chromosome = ''f'', Length = 10, Mapped = 7, Unmapped = 0, Coverage = Ratio 7 10\<rparr>])
   = Inr [''b'', ''d'', ''c'', ''f'', ''a'']"
  by (simp add: nlargest_def infer_dtype_def int64_def)


section \<open>Numbers that cannot be read\<close>

lemma flagstat_loop_prefix:
  "flagstat_loop pre d = Inr d' \<Longrightarrow> flagstat_loop (pre @ ls) d = flagstat_loop ls d'"
proof (induction pre arbitrary: d)
  case Nil
  then show ?case by simp
next
  case (Cons line pre)
  show ?case
  proof (cases "strip line \<noteq> [] \<and> length (split_on (CHR ''+'') line) = 2")
    case False
    then have "flagstat_loop pre d = Inr d'"
      using Cons.prems by (auto simp: Let_def split: if_splits)
    then have "flagstat_loop (pre @ ls) d = flagstat_loop ls d'" by (rule Cons.IH)
    then show ?thesis using False by (auto simp: Let_def)
  next
    case True
    then obtain n where n: "py_int (strip (split_on (CHR ''+'') line ! 0)) = Some n"
      using Cons.prems by (auto simp: Let_def split: option.splits)
    let ?desc = "lower (strip (hd (split_on (CHR ''('') (split_on (CHR ''+'') line ! 1))))"
    have "flagstat_loop pre (dict_set d ?desc n) = Inr d'"
      using Cons.prems True n by (simp add: Let_def)
    then have "flagstat_loop (pre @ ls) (dict_set d ?desc n) = flagstat_loop ls d'"
      by (rule Cons.IH)
    then show ?thesis using True n by (simp add: Let_def)
  qed
qed

lemma flagstat_loop_bad_line:
  assumes "strip line \<noteq> []" and "split_on (CHR ''+'') line = [cnt, rest]"
    and "py_int (strip cnt) = None"
  shows "\<exists>s. flagstat_loop (pre @ line # post) d = Inl (ValueError s)"
proof (induction pre arbitrary: d)
  case Nil
  show ?case using assms by (simp add: Let_def)
next
  case (Cons l pre)
  show ?case
  proof (cases "strip l \<noteq> [] \<and> length (split_on (CHR ''+'') l) = 2")
    case False
    then have "flagstat_loop ((l # pre) @ line # post) d = flagstat_loop (pre @ line # post) d"
      by (auto simp: Let_def)
    then show ?thesis using Cons.IH by simp
  next
    case True
    show ?thesis
    proof (cases "py_int (strip (split_on (CHR ''+'') l ! 0))")
      case None
      then show ?thesis using True by (simp add: Let_def)
    next
      case (Some n)
      let ?d2 = "dict_set d
          (lower (strip (hd (split_on (CHR ''('') (split_on (CHR ''+'') l ! 1))))) n"
      have "flagstat_loop ((l # pre) @ line # post) d =
              flagstat_loop (pre @ line # post) ?d2"
        using True Some by (simp add: Let_def)
      then show ?thesis using Cons.IH [of ?d2] by simp
    qed
  qed
qed

lemma chr_loop_bad_line:
  assumes "kept_line line"
    and "py_int (split_on (CHR 0x09) line ! 1) = None
         \<or> py_int (split_on (CHR 0x09) line ! 2) = None
         \<or> (3 < length (split_on (CHR 0x09) line) \<and> py_int (split_on (CHR 0x09) line ! 3) = None)"
  shows "\<exists>s. chr_loop (pre @ line # post) acc = Inl (ValueError s)"
proof (induction pre arbitrary: acc)
  case Nil
  show ?case using assms by (auto simp: kept_line_def Let_def split: option.splits)
next
  case (Cons l pre)
  have "(\<exists>s. chr_loop (l # pre @ line # post) acc = Inl (ValueError s))
        \<or> (\<exists>acc2. chr_loop (l # pre @ line # post) acc = chr_loop (pre @ line # post) acc2)"
    by (auto simp: Let_def split: option.splits)
  then show ?case using Cons.IH by auto
qed

text \<open>
  C2 (as stated): a report line whose numeric field is not an integer makes parsing raise
  \<open>MalformedReportError\<close>.  The script defines no such class: what ends the parsing of
  \<open>abc + 0 total\<close>, and of a reference line with the length \<open>x\<close>, is the \<open>ValueError\<close> of
  the built-in \<open>int\<close>.
\<close>

theorem malformed_count_counterexample:
  "parse_flagstat ''abc + 0 total'' = Inl (ValueError ''abc'')
   \<and> error_class (ValueError ''abc'') \<noteq> ''MalformedReportError''
   \<and> reference_table (''chrM'' @ [CHR 0x09] @ ''x'' @ [CHR 0x09] @ ''300'') = Inl (ValueError ''x'')
   \<and> error_class (ValueError ''x'') \<noteq> ''MalformedReportError''"
  by (simp add: parse_flagstat_def reference_table_def text_eval)

text \<open>
  C2 (amended): when the parser reads a summary line as a count and a description (the
  line is not blank and line 94 splits it into two parts) and the count, trimmed, is not an
  integer literal, the Flagstat Parser and the composition subtab with it end in
  \<open>ValueError\<close>, with no mapping; when the lines before it are read without error the
  error names that count.  When the parser reads a line of the per-reference report (not
  blank, three fields or more) whose length or mapped count, or unmapped count when
  present, is not an integer literal, the Reference Table Parser and the Chromosomes tab
  end in \<open>ValueError\<close>, with no table.
\<close>

theorem malformed_number_raises:
  "(splitlines flagstat_text = pre @ line # post
      \<and> strip line \<noteq> [] \<and> split_on (CHR ''+'') line = [cnt, rest]
      \<and> py_int (strip cnt) = None
    \<longrightarrow> (\<exists>s. parse_flagstat flagstat_text = Inl (ValueError s)
              \<and> flagstat_pie flagstat_text = Inl (ValueError s))
        \<and> (flagstat_loop pre [] = Inr d
              \<longrightarrow> parse_flagstat flagstat_text = Inl (ValueError (strip cnt))))
   \<and> (splitlines chromosome_stats = pre' @ ref_line # post'
      \<and> kept_line ref_line
      \<and> (py_int (split_on (CHR 0x09) ref_line ! 1) = None
          \<or> py_int (split_on (CHR 0x09) ref_line ! 2) = None
          \<or> (3 < length (split_on (CHR 0x09) ref_line)
              \<and> py_int (split_on (CHR 0x09) ref_line ! 3) = None))
    \<longrightarrow> (\<exists>s. reference_table chromosome_stats = Inl (ValueError s)
              \<and> chromosomes_tab argsort chromosome_stats = Inl (ValueError s)))"
proof (intro conjI impI)
  assume h: "splitlines flagstat_text = pre @ line # post
      \<and> strip line \<noteq> [] \<and> split_on (CHR ''+'') line = [cnt, rest]
      \<and> py_int (strip cnt) = None"
  then have nonblank: "strip line \<noteq> []"
    and parts: "split_on (CHR ''+'') line = [cnt, rest]"
    and none: "py_int (strip cnt) = None"
    by simp_all
  from flagstat_loop_bad_line [OF nonblank parts none, of pre post "[]"]
  obtain s where s: "flagstat_loop (pre @ line # post) [] = Inl (ValueError s)" ..
  then have p: "parse_flagstat flagstat_text = Inl (ValueError s)"
    using h by (simp add: parse_flagstat_def)
  then have "flagstat_pie flagstat_text = Inl (ValueError s)"
    by (simp add: flagstat_pie_def)
  with p show "\<exists>s. parse_flagstat flagstat_text = Inl (ValueError s)
              \<and> flagstat_pie flagstat_text = Inl (ValueError s)" by blast
  assume pre: "flagstat_loop pre [] = Inr d"
  have "flagstat_loop (pre @ line # post) [] = flagstat_loop (line # post) d"
    using pre by (rule flagstat_loop_prefix)
  also have "\<dots> = Inl (ValueError (strip cnt))"
    using nonblank parts none by (simp add: Let_def)
  finally show "parse_flagstat flagstat_text = Inl (ValueError (strip cnt))"
    using h by (simp add: parse_flagstat_def)
next
  assume h: "splitlines chromosome_stats = pre' @ ref_line # post'
      \<and> kept_line ref_line
      \<and> (py_int (split_on (CHR 0x09) ref_line ! 1) = None
          \<or> py_int (split_on (CHR 0x09) ref_line ! 2) = None
          \<or> (3 < length (split_on (CHR 0x09) ref_line)
              \<and> py_int (split_on (CHR 0x09) ref_line ! 3) = None))"
  then have k: "kept_line ref_line"
    and bad: "py_int (split_on (CHR 0x09) ref_line ! 1) = None
          \<or> py_int (split_on (CHR 0x09) ref_line ! 2) = None
          \<or> (3 < length (split_on (CHR 0x09) ref_line)
              \<and> py_int (split_on (CHR 0x09) ref_line ! 3) = None)" by blast+
  from chr_loop_bad_line [OF k bad, of pre' post' "[]"]
  obtain s where "chr_loop (pre' @ ref_line # post') [] = Inl (ValueError s)" ..
  then have r: "reference_table chromosome_stats = Inl (ValueError s)"
    using h by (simp add: reference_table_def)
  then have "chromosomes_tab argsort chromosome_stats = Inl (ValueError s)"
    by (simp add: chromosomes_tab_def)
  with r show "\<exists>s. reference_table chromosome_stats = Inl (ValueError s)
              \<and> chromosomes_tab argsort chromosome_stats = Inl (ValueError s)" by blast
qed

theorem malformed_number_raises_witness:
  "parse_flagstat ''10 + 0 mapped\<newline>abc + 0 total'' = Inl (ValueError ''abc'')
   \<and> (\<exists>s. reference_table (''chrM'' @ [CHR 0x09] @ ''x'' @ [CHR 0x09] @ ''300'')
              = Inl (ValueError s)
          \<and> chromosomes_tab (Abs_np_argsort stable_argsort)
               (''chrM'' @ [CHR 0x09] @ ''x'' @ [CHR 0x09] @ ''300'')
              = Inl (ValueError s))"
proof -
  let ?t = "''10 + 0 mapped\<newline>abc + 0 total''"
  let ?c = "''chrM'' @ [CHR 0x09] @ ''x'' @ [CHR 0x09] @ ''300''"
  note inst = malformed_number_raises [where flagstat_text = ?t and pre = "[''10 + 0 mapped'']"
      and line = "''abc + 0 total''" and cnt = "''abc ''" and rest = "'' 0 total''"
      and post = "[]" and d = "[(''0 mapped'', 10)]" and chromosome_stats = ?c
      and pre' = "[]" and ref_line = ?c and post' = "[]"
      and argsort = "Abs_np_argsort stable_argsort"]
  have h1: "splitlines ?t = [''10 + 0 mapped''] @ ''abc + 0 total'' # []
      \<and> strip ''abc + 0 total'' \<noteq> []
      \<and> split_on (CHR ''+'') ''abc + 0 total'' = [''abc '', '' 0 total'']
      \<and> py_int (strip ''abc '') = None"
    by (simp add: text_eval)
  have pre: "flagstat_loop [''10 + 0 mapped''] [] = Inr [(''0 mapped'', 10)]"
    by (simp add: text_eval)
  have "parse_flagstat ?t = Inl (ValueError (strip ''abc ''))"
    by (rule inst [THEN conjunct1, THEN mp, OF h1, THEN conjunct2, THEN mp, OF pre])
  then have a: "parse_flagstat ?t = Inl (ValueError ''abc'')"
    by (simp add: text_eval)
  have h2: "splitlines ?c = [] @ ?c # []
      \<and> kept_line ?c
      \<and> (py_int (split_on (CHR 0x09) ?c ! 1) = None
          \<or> py_int (split_on (CHR 0x09) ?c ! 2) = None
          \<or> (3 < length (split_on (CHR 0x09) ?c)
              \<and> py_int (split_on (CHR 0x09) ?c ! 3) = None))"
    by (simp add: kept_line_def text_eval)
  have b: "\<exists>s. reference_table ?c = Inl (ValueError s)
          \<and> chromosomes_tab (Abs_np_argsort stable_argsort) ?c = Inl (ValueError s)"
    by (rule inst [THEN conjunct2, THEN mp, OF h2])
  show ?thesis by (intro conjI) (rule a b)+
qed

end
